theory Spec2Isabelle
  imports Complex_Main
begin

section \<open>The random source\<close>

text \<open>
  The simulator draws from Python's global \<open>random\<close> module. Here the source of
  randomness is explicit: a script of raw draws that every call consumes from the front
  and hands back. A script that has run out keeps answering the raw value 0.
  \<open>random.random()\<close> maps a raw draw to a multiple of \<open>2\<^sup>-\<^sup>5\<^sup>3\<close> in [0, 1);
  \<open>random.randint(a, b)\<close> maps it into [a, b] and raises ValueError on an empty range,
  as Python does. Floats are modelled as exact rationals.
\<close>

type_synonym rng = "nat list"

datatype error = ValueError

definition next_raw :: "rng \<Rightarrow> nat \<times> rng" where
  "next_raw g = (case g of [] \<Rightarrow> (0, []) | r # g' \<Rightarrow> (r, g'))"

definition random_random :: "rng \<Rightarrow> rat \<times> rng" where
  "random_random g =
     (case next_raw g of (r, g') \<Rightarrow> (of_int (int r mod 2 ^ 53) / 2 ^ 53, g'))"

definition randint :: "int \<Rightarrow> int \<Rightarrow> rng \<Rightarrow> error + int \<times> rng" where
  "randint a b g =
     (if b < a then Inl ValueError
      else case next_raw g of (r, g') \<Rightarrow> Inr (a + int r mod (b - a + 1), g'))"

text \<open>\<open>range(n)\<close> for an integer \<open>n\<close>: empty when \<open>n \<le> 0\<close>.\<close>

definition py_range :: "int \<Rightarrow> int list" where
  "py_range n = map int [0..<nat n]"

text \<open>\<open>list.remove(x)\<close>: drops the first occurrence, ValueError when there is none.\<close>

definition list_remove :: "'a \<Rightarrow> 'a list \<Rightarrow> error + 'a list" where
  "list_remove x xs = (if x \<in> set xs then Inr (remove1 x xs) else Inl ValueError)"

section \<open>components.py: Task\<close>

datatype task_type = CPU_Bound | IO_Bound

record task =
  tid :: int
  arrival_time :: int
  ttype :: task_type
  total_cycles :: int
  io_frequency :: int
  cycles_done :: rat
  io_wait_timer :: int

definition Task_init :: "int \<Rightarrow> int \<Rightarrow> rng \<Rightarrow> error + task \<times> rng" where
  "Task_init task_id arrival g =
     (case random_random g of (u, g1) \<Rightarrow>
        let is_cpu_bound = (u > 1 / 2) in
        if is_cpu_bound then
          (case randint 200 500 g1 of
             Inl e \<Rightarrow> Inl e
           | Inr (tc, g2) \<Rightarrow>
               Inr (\<lparr>tid = task_id, arrival_time = arrival, ttype = CPU_Bound,
                     total_cycles = tc, io_frequency = 0,
                     cycles_done = 0, io_wait_timer = 0\<rparr>, g2))
        else
          (case randint 50 100 g1 of
             Inl e \<Rightarrow> Inl e
           | Inr (tc, g2) \<Rightarrow>
               (case randint 3 8 g2 of
                  Inl e \<Rightarrow> Inl e
                | Inr (f, g3) \<Rightarrow>
                    Inr (\<lparr>tid = task_id, arrival_time = arrival, ttype = IO_Bound,
                          total_cycles = tc, io_frequency = f,
                          cycles_done = 0, io_wait_timer = 0\<rparr>, g3))))"

definition is_finished :: "task \<Rightarrow> bool" where
  "is_finished t = (cycles_done t \<ge> of_int (total_cycles t))"

definition is_waiting_for_io :: "task \<Rightarrow> bool" where
  "is_waiting_for_io t = (io_wait_timer t > 0)"

text \<open>
  \<open>Task.work\<close>. The \<open>and\<close> of the source short-circuits: a CPU-bound task consumes no
  draw, and the second draw is taken only when the event fires.
\<close>

definition work :: "task \<Rightarrow> rat \<Rightarrow> rng \<Rightarrow> error + task \<times> rng" where
  "work t cycles_to_do g =
     (if is_waiting_for_io t then Inr (t\<lparr>io_wait_timer := io_wait_timer t - 1\<rparr>, g)
      else
        let t1 = t\<lparr>cycles_done := cycles_done t + cycles_to_do\<rparr> in
        if ttype t1 = IO_Bound then
          (case randint 1 100 g of
             Inl e \<Rightarrow> Inl e
           | Inr (d, g1) \<Rightarrow>
               if d < io_frequency t1 then
                 (case randint 5 10 g1 of
                    Inl e \<Rightarrow> Inl e
                  | Inr (w, g2) \<Rightarrow> Inr (t1\<lparr>io_wait_timer := w\<rparr>, g2))
               else Inr (t1, g1))
        else Inr (t1, g))"

section \<open>components.py: CPUCore\<close>

datatype core_type = P_core | E_core

record core =
  cid :: int
  ctype :: core_type
  current_task :: "task option"
  base_speed :: rat
  power_draw :: rat
  heat_generation :: rat
  idle_power_draw :: rat
  temperature :: rat
  max_temp :: rat
  cooling_factor :: rat

definition CPUCore_init :: "int \<Rightarrow> core_type \<Rightarrow> core" where
  "CPUCore_init core_id core_type =
     \<lparr>cid = core_id, ctype = core_type, current_task = None,
      base_speed = (if core_type = P_core then 2 else 1),
      power_draw = (if core_type = P_core then 4 else 1),
      heat_generation = (if core_type = P_core then 8 / 10 else 2 / 10),
      idle_power_draw = 1 / 10,
      temperature = 25,
      max_temp = 90,
      cooling_factor = 4 / 10\<rparr>"

definition get_current_speed :: "core \<Rightarrow> rat" where
  "get_current_speed c =
     (if temperature c \<ge> max_temp c then base_speed c * (1 / 2) else base_speed c)"

definition is_active :: "core \<Rightarrow> bool" where
  "is_active c =
     (case current_task c of None \<Rightarrow> False | Some t \<Rightarrow> \<not> is_waiting_for_io t)"

definition get_current_power_draw :: "core \<Rightarrow> rat" where
  "get_current_power_draw c = (if is_active c then power_draw c else idle_power_draw c)"

definition update_temperature :: "core \<Rightarrow> core" where
  "update_temperature c =
     (let c1 = (if is_active c
                then c\<lparr>temperature := temperature c + heat_generation c\<rparr>
                else c\<lparr>temperature := temperature c - cooling_factor c\<rparr>)
      in c1\<lparr>temperature := max 25 (temperature c1)\<rparr>)"

definition assign_task :: "core \<Rightarrow> task \<Rightarrow> core" where
  "assign_task c t = c\<lparr>current_task := Some t\<rparr>"

definition tick :: "core \<Rightarrow> rng \<Rightarrow> error + core \<times> rng" where
  "tick c g =
     (let c1 = update_temperature c in
      case current_task c1 of
        None \<Rightarrow> Inr (c1, g)
      | Some t \<Rightarrow>
          if is_finished t then Inr (c1\<lparr>current_task := None\<rparr>, g)
          else if is_waiting_for_io t then Inr (c1, g)
          else
            (case work t (get_current_speed c1) g of
               Inl e \<Rightarrow> Inl e
             | Inr (t', g') \<Rightarrow> Inr (c1\<lparr>current_task := Some t'\<rparr>, g')))"

section \<open>scheduler.py: SoC\<close>

text \<open>
  \<open>p_cores\<close> and \<open>e_cores\<close> hold the same core objects as \<open>all_cores\<close> and are not read
  after construction; the state keeps \<open>all_cores\<close>. Console output is not modelled.
\<close>

record soc =
  all_cores :: "core list"
  master_task_list :: "task list"
  task_queue :: "task list"
  completed_tasks :: "task list"
  current_tick :: int
  total_power_consumed :: rat

fun generate_loop :: "int \<Rightarrow> int list \<Rightarrow> task list \<Rightarrow> rng \<Rightarrow> error + task list \<times> rng" where
  "generate_loop num_tasks [] tasks g = Inr (tasks, g)"
| "generate_loop num_tasks (i # is) tasks g =
     (case randint 0 (num_tasks * 5) g of
        Inl e \<Rightarrow> Inl e
      | Inr (arrival, g1) \<Rightarrow>
          (case Task_init i arrival g1 of
             Inl e \<Rightarrow> Inl e
           | Inr (t, g2) \<Rightarrow> generate_loop num_tasks is (tasks @ [t]) g2))"

definition generate_tasks :: "int \<Rightarrow> rng \<Rightarrow> error + task list \<times> rng" where
  "generate_tasks num_tasks g =
     (case generate_loop num_tasks (py_range num_tasks) [] g of
        Inl e \<Rightarrow> Inl e
      | Inr (tasks, g') \<Rightarrow> Inr (sort_key arrival_time tasks, g'))"

definition SoC_init :: "int \<Rightarrow> int \<Rightarrow> int \<Rightarrow> rng \<Rightarrow> error + soc \<times> rng" where
  "SoC_init num_p_cores num_e_cores num_tasks g =
     (let p_cores = map (\<lambda>i. CPUCore_init i P_core) (py_range num_p_cores);
          e_cores = map (\<lambda>i. CPUCore_init (i + num_p_cores) E_core) (py_range num_e_cores)
      in case generate_tasks num_tasks g of
           Inl e \<Rightarrow> Inl e
         | Inr (tasks, g') \<Rightarrow>
             Inr (\<lparr>all_cores = p_cores @ e_cores, master_task_list = tasks,
                   task_queue = [], completed_tasks = [],
                   current_tick = 0, total_power_consumed = 0\<rparr>, g'))"

fun arrivals_loop :: "int \<Rightarrow> task list \<Rightarrow> task list \<Rightarrow> task list \<times> task list" where
  "arrivals_loop now [] q = ([], q)"
| "arrivals_loop now (t # m) q =
     (if arrival_time t \<le> now then arrivals_loop now m (q @ [t]) else (t # m, q))"

definition check_for_new_arrivals :: "soc \<Rightarrow> soc" where
  "check_for_new_arrivals s =
     (case arrivals_loop (current_tick s) (master_task_list s) (task_queue s) of
        (m, q) \<Rightarrow> s\<lparr>master_task_list := m, task_queue := q\<rparr>)"

text \<open>
  Rule 1 and rule 2 of the scheduler: the scan of the queue for the first task of the
  preferred type, then the front of the queue.
\<close>

definition select_task :: "core_type \<Rightarrow> task list \<Rightarrow> task option" where
  "select_task ct q =
     (let task_to_assign =
            (if ct = P_core then find (\<lambda>t. ttype t = CPU_Bound) q
             else find (\<lambda>t. ttype t = IO_Bound) q)
      in case task_to_assign of
           Some t \<Rightarrow> Some t
         | None \<Rightarrow> (case q of [] \<Rightarrow> None | t # _ \<Rightarrow> Some t))"

text \<open>The body of the scheduler's loop for one core, on the queue and the completed record.\<close>

definition schedule_core ::
  "core \<Rightarrow> task list \<Rightarrow> task list \<Rightarrow> error + core \<times> task list \<times> task list" where
  "schedule_core c q ct =
     (case (case current_task c of
              Some t \<Rightarrow> if is_finished t then (c\<lparr>current_task := None\<rparr>, ct @ [t]) else (c, ct)
            | None \<Rightarrow> (c, ct)) of
        (c1, ct1) \<Rightarrow>
          if current_task c1 = None \<and> q \<noteq> [] then
            (case select_task (ctype c1) q of
               None \<Rightarrow> Inr (c1, q, ct1)
             | Some t \<Rightarrow>
                 (case list_remove t q of
                    Inl e \<Rightarrow> Inl e
                  | Inr q' \<Rightarrow> Inr (assign_task c1 t, q', ct1)))
          else Inr (c1, q, ct1))"

fun schedule_loop ::
  "core list \<Rightarrow> task list \<Rightarrow> task list \<Rightarrow> error + core list \<times> task list \<times> task list" where
  "schedule_loop [] q ct = Inr ([], q, ct)"
| "schedule_loop (c # cs) q ct =
     (case schedule_core c q ct of
        Inl e \<Rightarrow> Inl e
      | Inr (c', q1, ct1) \<Rightarrow>
          (case schedule_loop cs q1 ct1 of
             Inl e \<Rightarrow> Inl e
           | Inr (cs', q2, ct2) \<Rightarrow> Inr (c' # cs', q2, ct2)))"

definition schedule_rule_based :: "soc \<Rightarrow> error + soc" where
  "schedule_rule_based s =
     (if task_queue s = [] then Inr s
      else case schedule_loop (all_cores s) (task_queue s) (completed_tasks s) of
             Inl e \<Rightarrow> Inl e
           | Inr (cs, q, ct) \<Rightarrow>
               Inr (s\<lparr>all_cores := cs, task_queue := q, completed_tasks := ct\<rparr>))"

text \<open>Phase 3 of a simulation tick: every core ticks, then its power draw is added.\<close>

fun tick_loop :: "core list \<Rightarrow> rat \<Rightarrow> rng \<Rightarrow> error + core list \<times> rat \<times> rng" where
  "tick_loop [] p g = Inr ([], p, g)"
| "tick_loop (c # cs) p g =
     (case tick c g of
        Inl e \<Rightarrow> Inl e
      | Inr (c', g1) \<Rightarrow>
          (case tick_loop cs (p + get_current_power_draw c') g1 of
             Inl e \<Rightarrow> Inl e
           | Inr (cs', p', g2) \<Rightarrow> Inr (c' # cs', p', g2)))"

definition run_simulation_tick :: "soc \<Rightarrow> rng \<Rightarrow> error + soc \<times> rng" where
  "run_simulation_tick s g =
     (let s1 = check_for_new_arrivals s in
      case schedule_rule_based s1 of
        Inl e \<Rightarrow> Inl e
      | Inr s2 \<Rightarrow>
          (case tick_loop (all_cores s2) (total_power_consumed s2) g of
             Inl e \<Rightarrow> Inl e
           | Inr (cs, p, g') \<Rightarrow>
               Inr (s2\<lparr>all_cores := cs, total_power_consumed := p,
                       current_tick := current_tick s2 + 1\<rparr>, g')))"

text \<open>A caller driving the step operation \<open>n\<close> times in a row.\<close>

fun run_ticks :: "nat \<Rightarrow> soc \<Rightarrow> rng \<Rightarrow> error + soc \<times> rng" where
  "run_ticks 0 s g = Inr (s, g)"
| "run_ticks (Suc n) s g =
     (case run_simulation_tick s g of
        Inl e \<Rightarrow> Inl e
      | Inr (s', g') \<Rightarrow> run_ticks n s' g')"

text \<open>The tasks bound to cores, and the sizes of the four containers.\<close>

definition bound_tasks :: "core list \<Rightarrow> task list" where
  "bound_tasks cs = concat (map (\<lambda>c. case current_task c of None \<Rightarrow> [] | Some t \<Rightarrow> [t]) cs)"

definition container_count :: "soc \<Rightarrow> nat" where
  "container_count s =
     length (master_task_list s) + length (task_queue s)
     + length (bound_tasks (all_cores s)) + length (completed_tasks s)"

section \<open>main.py and example configurations\<close>

text \<open>
  \<open>main\<close> constructs the simulator and drives it tick by tick; \<open>simulate\<close> is the
  state it has reached after \<open>n\<close> ticks.
\<close>

definition simulate :: "int \<Rightarrow> int \<Rightarrow> int \<Rightarrow> rng \<Rightarrow> nat \<Rightarrow> error + soc \<times> rng" where
  "simulate num_p_cores num_e_cores num_tasks g n =
     (case SoC_init num_p_cores num_e_cores num_tasks g of
        Inl e \<Rightarrow> Inl e
      | Inr (s, g') \<Rightarrow> run_ticks n s g')"

text \<open>
  The task generated from a script that starts with four zeros: arrival 0, I/O-bound,
  50 cycles, \<open>io_frequency\<close> 3. A simulator as the constructor leaves it.
\<close>

definition io_task :: task where
  "io_task = \<lparr>tid = 0, arrival_time = 0, ttype = IO_Bound, total_cycles = 50,
              io_frequency = 3, cycles_done = 0, io_wait_timer = 0\<rparr>"

definition fresh_soc :: "core list \<Rightarrow> task list \<Rightarrow> soc" where
  "fresh_soc cs ts =
     \<lparr>all_cores = cs, master_task_list = ts, task_queue = [], completed_tasks = [],
      current_tick = 0, total_power_consumed = 0\<rparr>"

definition cpu_task :: task where
  "cpu_task = \<lparr>tid = 1, arrival_time = 0, ttype = CPU_Bound, total_cycles = 200,
               io_frequency = 0, cycles_done = 0, io_wait_timer = 0\<rparr>"

text \<open>
  The state that one efficiency core and the task \<open>io_task\<close> reach after 50 ticks in
  which no I/O event fires: the task has done its 50 cycles and is still bound.
\<close>

definition stalled_soc :: soc where
  "stalled_soc =
     \<lparr>all_cores =
        [(CPUCore_init 0 E_core)
           \<lparr>current_task := Some (io_task\<lparr>cycles_done := 50\<rparr>), temperature := 35\<rparr>],
      master_task_list = [], task_queue = [], completed_tasks = [],
      current_tick = 50, total_power_consumed = 50\<rparr>"

text \<open>A sequence of \<open>work\<close> calls on one task, each with its own amount.\<close>

fun work_seq :: "task \<Rightarrow> rat list \<Rightarrow> rng \<Rightarrow> error + task \<times> rng" where
  "work_seq t [] g = Inr (t, g)"
| "work_seq t (a # as) g =
     (case work t a g of
        Inl e \<Rightarrow> Inl e
      | Inr (t', g') \<Rightarrow> work_seq t' as g')"

text \<open>Whether a \<open>work\<close> call leaves the task waiting for I/O.\<close>

definition io_event_fires :: "task \<Rightarrow> rat \<Rightarrow> rng \<Rightarrow> bool" where
  "io_event_fires t cycles_to_do g =
     (case work t cycles_to_do g of
        Inl e \<Rightarrow> False
      | Inr (t', g') \<Rightarrow> is_waiting_for_io t')"

text \<open>
  The raw draws \<open>r < 100\<close> stand for the 100 values \<open>r + 1\<close> of
  \<open>random.randint(1, 100)\<close>; \<open>firing_draws\<close> lists those after which the
  \<open>work\<close> call leaves the task waiting for I/O.
\<close>

definition firing_draws :: "task \<Rightarrow> rat \<Rightarrow> rng \<Rightarrow> nat list" where
  "firing_draws t cycles_to_do g =
     filter (\<lambda>r. io_event_fires t cycles_to_do (r # g)) [0..<100]"

section \<open>The operations never raise\<close>

lemma randint_ok:
  "a \<le> b \<Longrightarrow> randint a b g = Inr (a + int (fst (next_raw g)) mod (b - a + 1), snd (next_raw g))"
  by (simp add: randint_def split: prod.splits)

lemma randint_range:
  assumes "randint a b g = Inr (d, g')"
  shows "a \<le> d \<and> d \<le> b"
proof -
  from assms have ab: "a \<le> b"
    by (auto simp: randint_def split: if_splits)
  then have pos: "0 < b - a + 1" by simp
  from assms ab have d: "d = a + int (fst (next_raw g)) mod (b - a + 1)"
    by (simp add: randint_ok)
  have "0 \<le> int (fst (next_raw g)) mod (b - a + 1)"
    using pos by (rule pos_mod_sign)
  moreover have "int (fst (next_raw g)) mod (b - a + 1) < b - a + 1"
    using pos by (rule pos_mod_bound)
  ultimately show ?thesis using d by linarith
qed

lemma work_total: "\<exists>t' g'. work t amt g = Inr (t', g')"
  by (simp add: work_def Let_def randint_ok)

lemma tick_total: "\<exists>c' g'. tick c g = Inr (c', g')"
proof (cases "current_task (update_temperature c)")
  case None
  then show ?thesis by (simp add: tick_def Let_def)
next
  case (Some t)
  obtain t' g' where "work t (get_current_speed (update_temperature c)) g = Inr (t', g')"
    using work_total by blast
  with Some show ?thesis by (simp add: tick_def Let_def)
qed

lemma tick_loop_total: "\<exists>cs' p' g'. tick_loop cs p g = Inr (cs', p', g')"
proof (induction cs arbitrary: p g)
  case Nil
  show ?case by simp
next
  case (Cons c cs)
  obtain c' g1 where t: "tick c g = Inr (c', g1)"
    using tick_total by blast
  obtain cs' p' g2 where "tick_loop cs (p + get_current_power_draw c') g1 = Inr (cs', p', g2)"
    using Cons.IH by blast
  with t show ?case by simp
qed

lemma find_mem: "find P xs = Some x \<Longrightarrow> x \<in> set xs"
  by (induction xs) (auto split: if_splits)

lemma select_task_mem: "select_task ct q = Some t \<Longrightarrow> t \<in> set q"
  by (auto simp: select_task_def Let_def split: option.splits list.splits if_splits dest: find_mem)

lemma schedule_core_total: "\<exists>c' q' ct'. schedule_core c q ct = Inr (c', q', ct')"
  by (auto simp: schedule_core_def list_remove_def select_task_mem
           split: option.splits prod.splits)

lemma schedule_loop_total: "\<exists>cs' q' ct'. schedule_loop cs q ct = Inr (cs', q', ct')"
proof (induction cs arbitrary: q ct)
  case Nil
  show ?case by simp
next
  case (Cons c cs)
  obtain c' q1 ct1 where h: "schedule_core c q ct = Inr (c', q1, ct1)"
    using schedule_core_total by blast
  obtain cs' q2 ct2 where "schedule_loop cs q1 ct1 = Inr (cs', q2, ct2)"
    using Cons.IH by blast
  with h show ?case by simp
qed

lemma schedule_rule_based_total: "\<exists>s'. schedule_rule_based s = Inr s'"
proof (cases "task_queue s = []")
  case True
  then show ?thesis by (simp add: schedule_rule_based_def)
next
  case False
  obtain cs q ct where
    "schedule_loop (all_cores s) (task_queue s) (completed_tasks s) = Inr (cs, q, ct)"
    using schedule_loop_total by blast
  with False show ?thesis by (simp add: schedule_rule_based_def)
qed

lemma run_simulation_tick_total: "\<exists>s' g'. run_simulation_tick s g = Inr (s', g')"
proof -
  obtain s2 where a: "schedule_rule_based (check_for_new_arrivals s) = Inr s2"
    using schedule_rule_based_total by blast
  obtain cs p g' where "tick_loop (all_cores s2) (total_power_consumed s2) g = Inr (cs, p, g')"
    using tick_loop_total by blast
  with a show ?thesis by (simp add: run_simulation_tick_def Let_def)
qed

lemma run_ticks_total: "\<exists>s' g'. run_ticks n s g = Inr (s', g')"
proof (induction n arbitrary: s g)
  case 0
  show ?case by simp
next
  case (Suc n)
  obtain s1 g1 where a: "run_simulation_tick s g = Inr (s1, g1)"
    using run_simulation_tick_total by blast
  from Suc.IH [of s1 g1] a show ?case by simp
qed

lemma update_temperature_floor: "25 \<le> temperature (update_temperature c)"
  by (simp add: update_temperature_def Let_def)

lemma tick_temperature:
  "tick c g = Inr (c', g') \<Longrightarrow> temperature c' = temperature (update_temperature c)"
  by (auto simp: tick_def Let_def split: option.splits if_splits sum.splits)

lemma tick_loop_floor:
  "tick_loop cs p g = Inr (cs', p', g') \<Longrightarrow> \<forall>c \<in> set cs'. 25 \<le> temperature c"
proof (induction cs arbitrary: p g cs' p' g')
  case Nil
  then show ?case by simp
next
  case (Cons c cs)
  from Cons.prems obtain c1 g1 cs1 where
    t: "tick c g = Inr (c1, g1)" and
    l: "tick_loop cs (p + get_current_power_draw c1) g1 = Inr (cs1, p', g')" and
    e: "cs' = c1 # cs1"
    by (auto split: sum.splits)
  from t have "25 \<le> temperature c1"
    by (simp add: tick_temperature update_temperature_floor)
  moreover from Cons.IH [OF l] have "\<forall>c \<in> set cs1. 25 \<le> temperature c" .
  ultimately show ?case using e by simp
qed

lemma run_simulation_tick_floor:
  assumes "run_simulation_tick s g = Inr (s', g')"
  shows "\<forall>c \<in> set (all_cores s'). 25 \<le> temperature c"
proof -
  from assms obtain s2 cs p where
    l: "tick_loop (all_cores s2) (total_power_consumed s2) g = Inr (cs, p, g')" and
    e: "s' = s2\<lparr>all_cores := cs, total_power_consumed := p, current_tick := current_tick s2 + 1\<rparr>"
    by (auto simp: run_simulation_tick_def Let_def split: sum.splits)
  from tick_loop_floor [OF l] e show ?thesis by simp
qed

lemma run_ticks_floor:
  "run_ticks n s g = Inr (s', g') \<Longrightarrow> \<forall>c \<in> set (all_cores s). 25 \<le> temperature c
   \<Longrightarrow> \<forall>c \<in> set (all_cores s'). 25 \<le> temperature c"
proof (induction n arbitrary: s g)
  case 0
  then show ?case by simp
next
  case (Suc n)
  from Suc.prems(1) obtain s1 g1 where
    a: "run_simulation_tick s g = Inr (s1, g1)" and b: "run_ticks n s1 g1 = Inr (s', g')"
    by (auto split: sum.splits)
  from Suc.IH [OF b run_simulation_tick_floor [OF a]] show ?case .
qed

lemma Task_init_total: "\<exists>t g'. Task_init i a g = Inr (t, g')"
  by (simp add: Task_init_def Let_def randint_ok split: prod.splits)

lemma generate_loop_total:
  "is = [] \<or> 0 \<le> num_tasks \<Longrightarrow>
   \<exists>ts g'. generate_loop num_tasks is tasks g = Inr (ts, g') \<and> length ts = length tasks + length is"
proof (induction "is" arbitrary: tasks g)
  case Nil
  show ?case by simp
next
  case (Cons i "is")
  then have n: "0 \<le> num_tasks" by simp
  then obtain a g1 where r: "randint 0 (num_tasks * 5) g = Inr (a, g1)"
    by (simp add: randint_ok)
  obtain t g2 where ti: "Task_init i a g1 = Inr (t, g2)"
    using Task_init_total by blast
  from Cons.IH [of "tasks @ [t]" g2] n obtain ts g' where
    "generate_loop num_tasks is (tasks @ [t]) g2 = Inr (ts, g')"
    "length ts = length (tasks @ [t]) + length is"
    by auto
  with r ti show ?case by simp
qed

lemma py_range_empty: "n \<le> 0 \<Longrightarrow> py_range n = []"
  by (simp add: py_range_def)

lemma generate_tasks_total:
  "\<exists>ts g'. generate_tasks num_tasks g = Inr (ts, g') \<and> length ts = nat num_tasks"
proof -
  have "py_range num_tasks = [] \<or> 0 \<le> num_tasks"
    by (cases "0 \<le> num_tasks") (simp_all add: py_range_empty)
  from generate_loop_total [OF this, of "[]" g] obtain ts g' where
    "generate_loop num_tasks (py_range num_tasks) [] g = Inr (ts, g')"
    "length ts = length (py_range num_tasks)"
    by auto
  then show ?thesis by (simp add: generate_tasks_def py_range_def)
qed

lemma SoC_init_cores:
  "SoC_init p e k g = Inr (s, g') \<Longrightarrow>
   all_cores s = map (\<lambda>i. CPUCore_init i P_core) (py_range p)
                 @ map (\<lambda>i. CPUCore_init (i + p) E_core) (py_range e)"
  by (auto simp: SoC_init_def Let_def split: sum.splits)


lemma update_temperature_fields:
  "current_task (update_temperature c) = current_task c"
  "base_speed (update_temperature c) = base_speed c"
  "idle_power_draw (update_temperature c) = idle_power_draw c"
  "power_draw (update_temperature c) = power_draw c"
  by (simp_all add: update_temperature_def Let_def)

lemma run_ticks_Suc_end:
  "run_ticks n s g = Inr (s1, g1) \<Longrightarrow> run_ticks (Suc n) s g = run_simulation_tick s1 g1"
proof (induction n arbitrary: s g)
  case 0
  then show ?case by (simp split: sum.splits prod.splits)
next
  case (Suc n)
  from Suc.prems obtain s' g' where
    a: "run_simulation_tick s g = Inr (s', g')" and b: "run_ticks n s' g' = Inr (s1, g1)"
    by (auto split: sum.splits)
  from Suc.IH [OF b] a show ?case by simp
qed

lemma simulate_Suc_end:
  "simulate p e k g n = Inr (s1, g1) \<Longrightarrow>
   simulate p e k g (Suc n) = run_simulation_tick s1 g1"
  by (auto simp: simulate_def split: sum.splits dest: run_ticks_Suc_end)

lemma reach_stalled_soc:
  "simulate 0 1 1 ([0, 0, 0, 0] @ replicate 50 2) 50 = Inr (stalled_soc, [])"
  by code_simp

section \<open>Task conservation and reclaiming\<close>

text \<open>
  C1. The claim is that after every full simulation tick each generated task is in
  exactly one of \<open>master_task_list\<close>, \<open>task_queue\<close>, a core's \<open>current_task\<close> or
  \<open>completed_tasks\<close>, so that the four sizes add up to the number of tasks. The code
  loses tasks: with one efficiency core and one task, the count is 1 after construction
  and after 50 ticks, and 0 after 51 ticks. The scheduler returns early on the empty
  queue, and \<open>CPUCore.tick\<close> then clears the finished task without recording it.
\<close>

theorem C1_task_lost:
  "simulate 0 1 1 ([0, 0, 0, 0] @ replicate 50 2) 0
     = Inr (fresh_soc [CPUCore_init 0 E_core] [io_task], replicate 50 2)
   \<and> container_count (fresh_soc [CPUCore_init 0 E_core] [io_task]) = 1
   \<and> simulate 0 1 1 ([0, 0, 0, 0] @ replicate 50 2) 50 = Inr (stalled_soc, [])
   \<and> container_count stalled_soc = 1
   \<and> simulate 0 1 1 ([0, 0, 0, 0] @ replicate 50 2) 51
     = Inr (stalled_soc\<lparr>all_cores := [(CPUCore_init 0 E_core)\<lparr>temperature := 176 / 5\<rparr>],
                        current_tick := 51, total_power_consumed := 501 / 10\<rparr>, [])
   \<and> container_count
        (stalled_soc\<lparr>all_cores := [(CPUCore_init 0 E_core)\<lparr>temperature := 176 / 5\<rparr>],
                      current_tick := 51, total_power_consumed := 501 / 10\<rparr>) = 0"
proof -
  have a: "simulate 0 1 1 ([0, 0, 0, 0] @ replicate 50 2) 0
     = Inr (fresh_soc [CPUCore_init 0 E_core] [io_task], replicate 50 2)"
    by code_simp
  have b: "container_count (fresh_soc [CPUCore_init 0 E_core] [io_task]) = 1"
    by code_simp
  have c: "container_count stalled_soc = 1"
    by code_simp
  have d: "run_simulation_tick stalled_soc []
     = Inr (stalled_soc\<lparr>all_cores := [(CPUCore_init 0 E_core)\<lparr>temperature := 176 / 5\<rparr>],
                        current_tick := 51, total_power_consumed := 501 / 10\<rparr>, [])"
    by code_simp
  have e: "container_count
        (stalled_soc\<lparr>all_cores := [(CPUCore_init 0 E_core)\<lparr>temperature := 176 / 5\<rparr>],
                      current_tick := 51, total_power_consumed := 501 / 10\<rparr>) = 0"
    by code_simp
  from simulate_Suc_end [OF reach_stalled_soc] d
  have "simulate 0 1 1 ([0, 0, 0, 0] @ replicate 50 2) 51
     = Inr (stalled_soc\<lparr>all_cores := [(CPUCore_init 0 E_core)\<lparr>temperature := 176 / 5\<rparr>],
                        current_tick := 51, total_power_consumed := 501 / 10\<rparr>, [])"
    by (simp add: eval_nat_numeral)
  with a b c e reach_stalled_soc show ?thesis by blast
qed

text \<open>
  C2. The claim is that every invocation of \<open>schedule_rule_based\<close> moves the finished
  task of every core to \<open>completed_tasks\<close> and clears the binding, whatever the ready
  queue holds. On \<open>stalled_soc\<close>, reached after 50 ticks, the only core holds a finished
  task and the queue is empty: the scheduling phase returns the state unchanged, the
  task still bound and \<open>completed_tasks\<close> still empty.
\<close>

theorem C2_finished_task_not_reclaimed:
  "simulate 0 1 1 ([0, 0, 0, 0] @ replicate 50 2) 50 = Inr (stalled_soc, [])
   \<and> map (map_option is_finished \<circ> current_task) (all_cores stalled_soc) = [Some True]
   \<and> task_queue (check_for_new_arrivals stalled_soc) = []
   \<and> schedule_rule_based (check_for_new_arrivals stalled_soc) = Inr stalled_soc
   \<and> completed_tasks stalled_soc = []"
proof -
  have a: "map (map_option is_finished \<circ> current_task) (all_cores stalled_soc) = [Some True]"
    by code_simp
  have b: "task_queue (check_for_new_arrivals stalled_soc) = []"
    by code_simp
  have c: "schedule_rule_based (check_for_new_arrivals stalled_soc) = Inr stalled_soc"
    by code_simp
  have d: "completed_tasks stalled_soc = []"
    by code_simp
  from a b c d reach_stalled_soc show ?thesis by blast
qed

section \<open>Task progress\<close>

text \<open>
  C3 as stated fails: \<open>cycles_done\<close> can exceed \<open>total_cycles\<close>. One performance core
  works an I/O-bound task of 51 cycles at speed 2.0; after 26 ticks the task bound to
  the core has \<open>cycles_done\<close> 52.
\<close>

theorem C3_counterexample:
  "simulate 1 0 1 ([0, 0, 1, 0] @ replicate 26 2) 26
     = Inr (\<lparr>all_cores =
               [(CPUCore_init 0 P_core)
                  \<lparr>current_task := Some (io_task\<lparr>total_cycles := 51, cycles_done := 52\<rparr>),
                   temperature := 229 / 5\<rparr>],
             master_task_list = [], task_queue = [], completed_tasks = [],
             current_tick = 26, total_power_consumed = 104\<rparr>, [])
   \<and> of_int (total_cycles (io_task\<lparr>total_cycles := 51, cycles_done := 52\<rparr>))
       < cycles_done (io_task\<lparr>total_cycles := 51, cycles_done := 52\<rparr>)"
proof -
  have a: "simulate 1 0 1 ([0, 0, 1, 0] @ replicate 26 2) 26
     = Inr (\<lparr>all_cores =
               [(CPUCore_init 0 P_core)
                  \<lparr>current_task := Some (io_task\<lparr>total_cycles := 51, cycles_done := 52\<rparr>),
                   temperature := 229 / 5\<rparr>],
             master_task_list = [], task_queue = [], completed_tasks = [],
             current_tick = 26, total_power_consumed = 104\<rparr>, [])"
    by code_simp
  have b: "of_int (total_cycles (io_task\<lparr>total_cycles := 51, cycles_done := 52\<rparr>))
       < cycles_done (io_task\<lparr>total_cycles := 51, cycles_done := 52\<rparr>)"
    by simp
  from a b show ?thesis by blast
qed

lemma work_cycles:
  assumes "work t a g = Inr (t', g')"
  shows "total_cycles t' = total_cycles t
       \<and> (cycles_done t' = cycles_done t \<or> cycles_done t' = cycles_done t + a)"
  using assms
  by (auto simp: work_def Let_def split: if_splits sum.splits prod.splits)

lemma work_seq_monotone:
  "\<forall>a \<in> set amounts. 0 \<le> a \<Longrightarrow>
   \<exists>t' g'. work_seq t amounts g = Inr (t', g')
     \<and> cycles_done t \<le> cycles_done t' \<and> total_cycles t' = total_cycles t"
proof (induction amounts arbitrary: t g)
  case Nil
  show ?case by simp
next
  case (Cons a as)
  obtain t1 g1 where w: "work t a g = Inr (t1, g1)"
    using work_total by blast
  from Cons.prems have a: "0 \<le> a" and rest: "\<forall>a \<in> set as. 0 \<le> a" by simp_all
  from work_cycles [OF w] a have s1: "cycles_done t \<le> cycles_done t1"
    and tc: "total_cycles t1 = total_cycles t" by auto
  from Cons.IH [OF rest, of t1 g1] obtain t' g' where
    "work_seq t1 as g1 = Inr (t', g')" "cycles_done t1 \<le> cycles_done t'"
    "total_cycles t' = total_cycles t1"
    by blast
  with w s1 tc show ?case by simp
qed

lemma get_current_speed_le:
  "0 \<le> base_speed c \<Longrightarrow> 0 \<le> get_current_speed c \<and> get_current_speed c \<le> base_speed c"
  by (simp add: get_current_speed_def)

lemma tick_overshoot:
  assumes b: "0 \<le> base_speed c" and t: "tick c g = Inr (c', g')"
    and u: "current_task c' = Some t'"
  shows "\<exists>t. current_task c = Some t \<and> cycles_done t \<le> cycles_done t'
           \<and> total_cycles t' = total_cycles t
           \<and> cycles_done t' < of_int (total_cycles t') + base_speed c"
proof (cases "current_task c")
  case None
  with t have "current_task c' = None"
    by (auto simp: tick_def Let_def update_temperature_fields)
  with u show ?thesis by simp
next
  case (Some t0)
  from b have sp: "0 \<le> get_current_speed (update_temperature c)"
    "get_current_speed (update_temperature c) \<le> base_speed c"
    using get_current_speed_le [of "update_temperature c"]
    by (simp_all add: update_temperature_fields)
  from t u Some have nf: "\<not> is_finished t0"
    by (auto simp: tick_def Let_def update_temperature_fields split: if_splits)
  then have lt: "cycles_done t0 < of_int (total_cycles t0)"
    by (simp add: is_finished_def)
  show ?thesis
  proof (cases "is_waiting_for_io t0")
    case True
    with t u Some nf have "t' = t0"
      by (auto simp: tick_def Let_def update_temperature_fields)
    with Some lt b show ?thesis by simp
  next
    case False
    with t u Some nf obtain g1 where
      w: "work t0 (get_current_speed (update_temperature c)) g = Inr (t', g1)"
      by (auto simp: tick_def Let_def update_temperature_fields split: sum.splits)
    from work_cycles [OF w] sp lt Some show ?thesis by auto
  qed
qed

text \<open>
  C3, amended. Across any sequence of \<open>work\<close> calls with non-negative amounts, which
  never raise, \<open>cycles_done\<close> does not decrease and \<open>total_cycles\<close> does not change.
  \<open>work\<close> adds the amount without a clamp, so \<open>cycles_done\<close> may pass \<open>total_cycles\<close>;
  but a core only works a task that is not finished, so the task bound to a core after
  that core's tick has \<open>cycles_done\<close> below \<open>total_cycles\<close> plus the core's base speed.
\<close>

theorem C3_cycles_done_bounds:
  "((\<forall>a \<in> set amounts. 0 \<le> a) \<longrightarrow>
      (\<exists>t' g'. work_seq t amounts g = Inr (t', g')
         \<and> cycles_done t \<le> cycles_done t' \<and> total_cycles t' = total_cycles t))
   \<and> (0 \<le> base_speed c \<and> tick c g = Inr (c', g1) \<and> current_task c' = Some u' \<longrightarrow>
      (\<exists>u. current_task c = Some u \<and> cycles_done u \<le> cycles_done u'
         \<and> total_cycles u' = total_cycles u
         \<and> cycles_done u' < of_int (total_cycles u') + base_speed c))"
  using work_seq_monotone [of amounts t g] tick_overshoot [of c g c' g1 u']
  by blast

theorem C3_cycles_done_bounds_witness:
  "list_all (\<lambda>a. 0 \<le> a) [2, 1 / 2 :: rat]
   \<and> work_seq io_task [2, 1 / 2] [5, 5] = Inr (io_task\<lparr>cycles_done := 5 / 2\<rparr>, [])
   \<and> cycles_done io_task \<le> 5 / 2
   \<and> 0 \<le> base_speed ((CPUCore_init 0 P_core)\<lparr>current_task := Some (io_task\<lparr>cycles_done := 49\<rparr>)\<rparr>)
   \<and> tick ((CPUCore_init 0 P_core)\<lparr>current_task := Some (io_task\<lparr>cycles_done := 49\<rparr>)\<rparr>) [5]
       = Inr ((CPUCore_init 0 P_core)
                \<lparr>current_task := Some (io_task\<lparr>cycles_done := 51\<rparr>), temperature := 129 / 5\<rparr>, [])
   \<and> cycles_done (io_task\<lparr>cycles_done := 51\<rparr>)
       < of_int (total_cycles (io_task\<lparr>cycles_done := 51\<rparr>)) + 2"
proof -
  have a: "list_all (\<lambda>a. 0 \<le> a) [2, 1 / 2 :: rat]" by simp
  have b: "work_seq io_task [2, 1 / 2] [5, 5] = Inr (io_task\<lparr>cycles_done := 5 / 2\<rparr>, [])"
    by code_simp
  have c: "0 \<le> base_speed ((CPUCore_init 0 P_core)\<lparr>current_task := Some (io_task\<lparr>cycles_done := 49\<rparr>)\<rparr>)"
    by code_simp
  have d: "tick ((CPUCore_init 0 P_core)\<lparr>current_task := Some (io_task\<lparr>cycles_done := 49\<rparr>)\<rparr>) [5]
       = Inr ((CPUCore_init 0 P_core)
                \<lparr>current_task := Some (io_task\<lparr>cycles_done := 51\<rparr>), temperature := 129 / 5\<rparr>, [])"
    by code_simp
  have e: "base_speed ((CPUCore_init 0 P_core)\<lparr>current_task := Some (io_task\<lparr>cycles_done := 49\<rparr>)\<rparr>) = 2"
    by code_simp
  from C3_cycles_done_bounds
    [of "[2, 1 / 2]" io_task "[5, 5]"
        "(CPUCore_init 0 P_core)\<lparr>current_task := Some (io_task\<lparr>cycles_done := 49\<rparr>)\<rparr>"]
    a b
  have f: "cycles_done io_task \<le> 5 / 2"
    by (auto simp: list_all_iff)
  from C3_cycles_done_bounds
    [of "[]" io_task "[5]"
        "(CPUCore_init 0 P_core)\<lparr>current_task := Some (io_task\<lparr>cycles_done := 49\<rparr>)\<rparr>"
        "(CPUCore_init 0 P_core)
                \<lparr>current_task := Some (io_task\<lparr>cycles_done := 51\<rparr>), temperature := 129 / 5\<rparr>"
        "[]" "io_task\<lparr>cycles_done := 51\<rparr>"]
    c d e
  have g: "cycles_done (io_task\<lparr>cycles_done := 51\<rparr>)
       < of_int (total_cycles (io_task\<lparr>cycles_done := 51\<rparr>)) + 2"
    by simp
  from a b c d f g show ?thesis by blast
qed

section \<open>I/O events\<close>

lemma count_below:
  "length (filter (\<lambda>r. 1 + int r < k) [0..<n]) = nat (min (int n) (k - 1))"
  by (induction n) auto

lemma randint_1_100: "r < 100 \<Longrightarrow> randint 1 100 (r # g) = Inr (1 + int r, g)"
  by (simp add: randint_def next_raw_def)

lemma work_io_bound:
  assumes "ttype t = IO_Bound" and "\<not> is_waiting_for_io t"
  shows "\<exists>d g1. randint 1 100 g = Inr (d, g1) \<and> 1 \<le> d \<and> d \<le> 100 \<and>
     (if d < io_frequency t
      then \<exists>w g2. randint 5 10 g1 = Inr (w, g2) \<and> 5 \<le> w \<and> w \<le> 10 \<and>
             work t amt g = Inr (t\<lparr>cycles_done := cycles_done t + amt, io_wait_timer := w\<rparr>, g2)
      else work t amt g = Inr (t\<lparr>cycles_done := cycles_done t + amt\<rparr>, g1))"
proof -
  obtain d g1 where r1: "randint 1 100 g = Inr (d, g1)"
    by (simp add: randint_ok)
  obtain w g2 where r2: "randint 5 10 g1 = Inr (w, g2)"
    by (simp add: randint_ok)
  from randint_range [OF r1] have d: "1 \<le> d" "d \<le> 100" by simp_all
  from randint_range [OF r2] have w: "5 \<le> w" "w \<le> 10" by simp_all
  from assms r1 r2 d w show ?thesis
    by (simp add: work_def Let_def)
qed

lemma io_event_fires_iff:
  assumes "ttype t = IO_Bound" and "\<not> is_waiting_for_io t" and "r < 100"
  shows "io_event_fires t amt (r # g) \<longleftrightarrow> 1 + int r < io_frequency t"
proof -
  obtain w g2 where r2: "randint 5 10 g = Inr (w, g2)"
    by (simp add: randint_ok)
  from randint_range [OF r2] have w: "5 \<le> w" by simp
  from assms r2 w show ?thesis
    by (simp add: io_event_fires_def work_def Let_def randint_1_100 is_waiting_for_io_def)
qed

lemma io_event_count:
  assumes "ttype t = IO_Bound" and "\<not> is_waiting_for_io t"
  shows "length (firing_draws t amt g) = nat (min 100 (io_frequency t - 1))"
proof -
  have "filter (\<lambda>r. io_event_fires t amt (r # g)) [0..<100]
        = filter (\<lambda>r. 1 + int r < io_frequency t) [0..<100]"
    by (rule filter_cong) (simp_all add: io_event_fires_iff [OF assms])
  then show ?thesis
    using count_below [of "io_frequency t" 100] by (simp add: firing_draws_def)
qed

text \<open>
  C5 as stated fails in its last part: the event does not fire with probability
  \<open>io_frequency\<close> percent. For \<open>io_task\<close>, whose \<open>io_frequency\<close> is 3, only 2 of the
  100 equally likely draws fire the event (the draws 1 and 2); the draw 3 does not.
\<close>

theorem C5_counterexample:
  "ttype io_task = IO_Bound \<and> \<not> is_waiting_for_io io_task \<and> io_frequency io_task = 3
   \<and> firing_draws io_task 1 [] = [0, 1]
   \<and> randint 1 100 [2, 0] = Inr (3, [0])
   \<and> work io_task 1 [2, 0] = Inr (io_task\<lparr>cycles_done := 1\<rparr>, [0])"
proof -
  have a: "ttype io_task = IO_Bound" "\<not> is_waiting_for_io io_task" "io_frequency io_task = 3"
    by (simp_all add: io_task_def is_waiting_for_io_def)
  have b: "firing_draws io_task 1 [] = [0, 1]"
    by code_simp
  have c: "randint 1 100 [2, 0] = Inr (3, [0])"
    by (simp add: randint_def next_raw_def)
  have d: "work io_task 1 [2, 0] = Inr (io_task\<lparr>cycles_done := 1\<rparr>, [0])"
    by code_simp
  from a b c d show ?thesis by blast
qed

text \<open>
  C5, amended. When \<open>work\<close> is applied to an I/O-bound task that is not waiting for
  I/O, the amount is added to \<open>cycles_done\<close> first; then a draw \<open>d\<close> in [1, 100] is
  taken, and exactly when \<open>d < io_frequency\<close> a second draw in [5, 10] becomes
  \<open>io_wait_timer\<close>; otherwise the timer is left alone. Of the 100 values of the first
  draw, \<open>min 100 (io_frequency - 1)\<close> fire the event (none when \<open>io_frequency \<le> 1\<close>):
  the event has probability \<open>(io_frequency - 1)\<close> percent, not \<open>io_frequency\<close> percent.
\<close>

theorem C5_io_event:
  assumes "ttype t = IO_Bound" and "\<not> is_waiting_for_io t"
  shows "(\<exists>d g1. randint 1 100 g = Inr (d, g1) \<and> 1 \<le> d \<and> d \<le> 100 \<and>
     (if d < io_frequency t
      then \<exists>w g2. randint 5 10 g1 = Inr (w, g2) \<and> 5 \<le> w \<and> w \<le> 10 \<and>
             work t amt g = Inr (t\<lparr>cycles_done := cycles_done t + amt, io_wait_timer := w\<rparr>, g2)
      else work t amt g = Inr (t\<lparr>cycles_done := cycles_done t + amt\<rparr>, g1)))
   \<and> length (firing_draws t amt g) = nat (min 100 (io_frequency t - 1))"
  using work_io_bound [OF assms, of g amt] io_event_count [OF assms, of amt g]
  by blast

theorem C5_io_event_witness:
  "ttype io_task = IO_Bound \<and> \<not> is_waiting_for_io io_task
   \<and> randint 1 100 [0, 3] = Inr (1, [3])
   \<and> randint 5 10 [3] = Inr (8, [])
   \<and> work io_task 1 [0, 3] = Inr (io_task\<lparr>cycles_done := 1, io_wait_timer := 8\<rparr>, [])
   \<and> randint 1 100 [2, 3] = Inr (3, [3])
   \<and> work io_task 1 [2, 3] = Inr (io_task\<lparr>cycles_done := 1\<rparr>, [3])
   \<and> length (firing_draws io_task 1 []) = nat (min 100 (io_frequency io_task - 1))
   \<and> nat (min 100 (io_frequency io_task - 1)) = 2"
proof -
  have a: "ttype io_task = IO_Bound" "\<not> is_waiting_for_io io_task"
    by (simp_all add: io_task_def is_waiting_for_io_def)
  have b: "randint 1 100 [0, 3] = Inr (1, [3])" "randint 5 10 [3] = Inr (8, [])"
    "randint 1 100 [2, 3] = Inr (3, [3])"
    by (simp_all add: randint_def next_raw_def)
  have c: "work io_task 1 [0, 3] = Inr (io_task\<lparr>cycles_done := 1, io_wait_timer := 8\<rparr>, [])"
    by code_simp
  have d: "work io_task 1 [2, 3] = Inr (io_task\<lparr>cycles_done := 1\<rparr>, [3])"
    by code_simp
  from C5_io_event [OF a, of "[]" 1]
  have e: "length (firing_draws io_task 1 []) = nat (min 100 (io_frequency io_task - 1))"
    by blast
  have f: "nat (min 100 (io_frequency io_task - 1)) = 2"
    by (simp add: io_task_def)
  from a b c d e f show ?thesis by blast
qed

section \<open>Assignment by affinity\<close>

lemma find_split:
  "find P xs = Some x \<Longrightarrow>
   \<exists>ys zs. xs = ys @ x # zs \<and> P x \<and> (\<forall>y \<in> set ys. \<not> P y)"
proof (induction xs)
  case Nil
  then show ?case by simp
next
  case (Cons a xs)
  show ?case
  proof (cases "P a")
    case True
    with Cons.prems have "a = x" by simp
    with True have "a # xs = [] @ x # xs \<and> P x \<and> (\<forall>y \<in> set []. \<not> P y)" by simp
    then show ?thesis by blast
  next
    case False
    with Cons.prems have "find P xs = Some x" by simp
    from Cons.IH [OF this] obtain ys zs where
      "xs = ys @ x # zs" "P x" "\<forall>y \<in> set ys. \<not> P y" by blast
    with False have "a # xs = (a # ys) @ x # zs \<and> P x \<and> (\<forall>y \<in> set (a # ys). \<not> P y)"
      by simp
    then show ?thesis by blast
  qed
qed

lemma find_None: "(\<forall>x \<in> set xs. \<not> P x) \<Longrightarrow> find P xs = None"
  by (induction xs) auto

lemma find_exists: "\<exists>x \<in> set xs. P x \<Longrightarrow> \<exists>y. find P xs = Some y"
  by (induction xs) auto

lemma remove1_middle: "x \<notin> set ys \<Longrightarrow> remove1 x (ys @ x # zs) = ys @ zs"
  by (induction ys) auto

lemma schedule_core_affinity:
  assumes p: "ctype c = P_core" and idle: "current_task c = None"
    and ex: "\<exists>t \<in> set q. ttype t = CPU_Bound"
  shows "\<exists>q1 t q2. q = q1 @ t # q2 \<and> ttype t = CPU_Bound
           \<and> (\<forall>u \<in> set q1. ttype u \<noteq> CPU_Bound)
           \<and> schedule_core c q ct = Inr (c\<lparr>current_task := Some t\<rparr>, q1 @ q2, ct)"
proof -
  from find_exists [of q "\<lambda>t. ttype t = CPU_Bound"] ex
  obtain t where f: "find (\<lambda>t. ttype t = CPU_Bound) q = Some t" by blast
  from find_split [OF f] obtain q1 q2 where
    q: "q = q1 @ t # q2" and ty: "ttype t = CPU_Bound"
    and before: "\<forall>u \<in> set q1. ttype u \<noteq> CPU_Bound"
    by blast
  from ty before have "t \<notin> set q1" by blast
  then have r: "remove1 t q = q1 @ q2"
    using q by (simp add: remove1_middle)
  from q have ne: "q \<noteq> []" and mem: "t \<in> set q" by simp_all
  from p f have sel: "select_task (ctype c) q = Some t"
    by (simp add: select_task_def)
  from idle ne sel mem r have
    "schedule_core c q ct = Inr (c\<lparr>current_task := Some t\<rparr>, q1 @ q2, ct)"
    by (simp add: schedule_core_def list_remove_def assign_task_def)
  with q ty before show ?thesis by blast
qed

lemma schedule_core_fallback:
  assumes idle: "current_task c = None"
    and none: "\<forall>u \<in> set (t # q). ttype u \<noteq> (if ctype c = P_core then CPU_Bound else IO_Bound)"
  shows "schedule_core c (t # q) ct = Inr (c\<lparr>current_task := Some t\<rparr>, q, ct)"
proof -
  have "select_task (ctype c) (t # q) = Some t"
  proof (cases "ctype c = P_core")
    case True
    with none have "find (\<lambda>t. ttype t = CPU_Bound) (t # q) = None"
      by (intro find_None) simp
    with True show ?thesis by (simp add: select_task_def)
  next
    case False
    with none have "find (\<lambda>t. ttype t = IO_Bound) (t # q) = None"
      by (intro find_None) simp
    with False show ?thesis by (simp add: select_task_def)
  qed
  with idle show ?thesis
    by (simp add: schedule_core_def list_remove_def assign_task_def)
qed

lemma SoC_init_core_types:
  assumes "SoC_init p e k g = Inr (s, g')"
  shows "map ctype (all_cores s) = replicate (nat p) P_core @ replicate (nat e) E_core"
proof -
  have "map ctype (map (\<lambda>i. CPUCore_init i ty) (py_range n)) = replicate (nat n) ty" for ty n
    by (simp add: py_range_def CPUCore_init_def comp_def map_replicate_const)
  moreover have "map ctype (map (\<lambda>i. CPUCore_init (i + p) ty) (py_range n)) = replicate (nat n) ty" for ty n
    by (simp add: py_range_def CPUCore_init_def comp_def map_replicate_const)
  ultimately show ?thesis
    using SoC_init_cores [OF assms] by simp
qed

lemma schedule_rule_based_order:
  assumes "task_queue s \<noteq> []" and "all_cores s = c # cs"
  shows "\<exists>c' q1 ct1 cs' q2 ct2.
           schedule_core c (task_queue s) (completed_tasks s) = Inr (c', q1, ct1)
         \<and> schedule_loop cs q1 ct1 = Inr (cs', q2, ct2)
         \<and> schedule_rule_based s
             = Inr (s\<lparr>all_cores := c' # cs', task_queue := q2, completed_tasks := ct2\<rparr>)"
proof -
  obtain c' q1 ct1 where a: "schedule_core c (task_queue s) (completed_tasks s) = Inr (c', q1, ct1)"
    using schedule_core_total by blast
  obtain cs' q2 ct2 where b: "schedule_loop cs q1 ct1 = Inr (cs', q2, ct2)"
    using schedule_loop_total by blast
  from assms a b have
    "schedule_rule_based s
       = Inr (s\<lparr>all_cores := c' # cs', task_queue := q2, completed_tasks := ct2\<rparr>)"
    by (simp add: schedule_rule_based_def)
  with a b show ?thesis by blast
qed

text \<open>
  C6. An idle performance core facing a ready queue that holds a CPU-bound task is
  bound to the first CPU-bound task of the queue, front to back, and that task leaves
  the queue. An idle core whose preferred type is absent from a non-empty queue is
  bound to the queue's front task. The constructor lists performance cores before
  efficiency cores, and the scheduler serves the cores in that order: the first core
  chooses from the whole queue, the others from what is left.
\<close>

theorem C6_assignment_affinity:
  "(ctype c = P_core \<and> current_task c = None \<and> (\<exists>t \<in> set q. ttype t = CPU_Bound) \<longrightarrow>
      (\<exists>q1 t q2. q = q1 @ t # q2 \<and> ttype t = CPU_Bound
         \<and> (\<forall>u \<in> set q1. ttype u \<noteq> CPU_Bound)
         \<and> schedule_core c q ct = Inr (c\<lparr>current_task := Some t\<rparr>, q1 @ q2, ct)))
   \<and> (current_task c = None
        \<and> (\<forall>u \<in> set (t0 # q0).
              ttype u \<noteq> (if ctype c = P_core then CPU_Bound else IO_Bound)) \<longrightarrow>
      schedule_core c (t0 # q0) ct = Inr (c\<lparr>current_task := Some t0\<rparr>, q0, ct))
   \<and> (SoC_init p e k g = Inr (s0, g') \<longrightarrow>
      map ctype (all_cores s0) = replicate (nat p) P_core @ replicate (nat e) E_core)
   \<and> (task_queue s \<noteq> [] \<and> all_cores s = c1 # cs \<longrightarrow>
      (\<exists>c' q1 ct1 cs' q2 ct2.
           schedule_core c1 (task_queue s) (completed_tasks s) = Inr (c', q1, ct1)
         \<and> schedule_loop cs q1 ct1 = Inr (cs', q2, ct2)
         \<and> schedule_rule_based s
             = Inr (s\<lparr>all_cores := c' # cs', task_queue := q2, completed_tasks := ct2\<rparr>)))"
  using schedule_core_affinity [of c q ct] schedule_core_fallback [of c t0 q0 ct]
        SoC_init_core_types [of p e k g s0 g'] schedule_rule_based_order [of s c1 cs]
  by blast

theorem C6_assignment_affinity_witness:
  "ctype (CPUCore_init 0 P_core) = P_core \<and> current_task (CPUCore_init 0 P_core) = None
   \<and> list_ex (\<lambda>t. ttype t = CPU_Bound) [io_task, cpu_task]
   \<and> schedule_core (CPUCore_init 0 P_core) [io_task, cpu_task] []
       = Inr ((CPUCore_init 0 P_core)\<lparr>current_task := Some cpu_task\<rparr>, [io_task], [])
   \<and> list_all (\<lambda>u. ttype u \<noteq> CPU_Bound) [io_task, io_task\<lparr>tid := 2\<rparr>]
   \<and> schedule_core (CPUCore_init 0 P_core) [io_task, io_task\<lparr>tid := 2\<rparr>] []
       = Inr ((CPUCore_init 0 P_core)\<lparr>current_task := Some io_task\<rparr>, [io_task\<lparr>tid := 2\<rparr>], [])
   \<and> SoC_init 1 1 0 [] = Inr (fresh_soc [CPUCore_init 0 P_core, CPUCore_init 1 E_core] [], [])
   \<and> map ctype (all_cores (fresh_soc [CPUCore_init 0 P_core, CPUCore_init 1 E_core] []))
       = [P_core, E_core]
   \<and> task_queue ((fresh_soc [CPUCore_init 0 P_core, CPUCore_init 1 E_core] [])
                    \<lparr>task_queue := [io_task, cpu_task]\<rparr>) \<noteq> []
   \<and> schedule_rule_based ((fresh_soc [CPUCore_init 0 P_core, CPUCore_init 1 E_core] [])
                             \<lparr>task_queue := [io_task, cpu_task]\<rparr>)
       = Inr (fresh_soc [(CPUCore_init 0 P_core)\<lparr>current_task := Some cpu_task\<rparr>,
                         (CPUCore_init 1 E_core)\<lparr>current_task := Some io_task\<rparr>] [])"
proof -
  let ?p = "CPUCore_init 0 P_core"
  let ?s = "fresh_soc [CPUCore_init 0 P_core, CPUCore_init 1 E_core] []"
  have a: "ctype ?p = P_core" "current_task ?p = None"
    by (simp_all add: CPUCore_init_def)
  have b: "list_ex (\<lambda>t. ttype t = CPU_Bound) [io_task, cpu_task]"
    by (simp add: io_task_def cpu_task_def)
  have c: "schedule_core ?p [io_task, cpu_task] []
       = Inr (?p\<lparr>current_task := Some cpu_task\<rparr>, [io_task], [])"
    by code_simp
  have d: "list_all (\<lambda>u. ttype u \<noteq> CPU_Bound) [io_task, io_task\<lparr>tid := 2\<rparr>]"
    by (simp add: io_task_def)
  have e: "SoC_init 1 1 0 [] = Inr (?s, [])"
    by code_simp
  have f: "task_queue (?s\<lparr>task_queue := [io_task, cpu_task]\<rparr>) \<noteq> []"
    by simp
  have g: "schedule_rule_based (?s\<lparr>task_queue := [io_task, cpu_task]\<rparr>)
       = Inr (fresh_soc [?p\<lparr>current_task := Some cpu_task\<rparr>,
                         (CPUCore_init 1 E_core)\<lparr>current_task := Some io_task\<rparr>] [])"
    by code_simp
  note inst = C6_assignment_affinity
    [of ?p "[io_task, cpu_task]" "[]" io_task "[io_task\<lparr>tid := 2\<rparr>]" 1 1 0 "[]" ?s "[]"
        "?s\<lparr>task_queue := [io_task, cpu_task]\<rparr>" ?p "[CPUCore_init 1 E_core]"]
  from inst a d have h: "schedule_core ?p [io_task, io_task\<lparr>tid := 2\<rparr>] []
       = Inr (?p\<lparr>current_task := Some io_task\<rparr>, [io_task\<lparr>tid := 2\<rparr>], [])"
    by (simp add: list_all_iff)
  from inst e have i: "map ctype (all_cores ?s) = [P_core, E_core]"
    by (simp add: eval_nat_numeral)
  from a b c d e f g h i show ?thesis by blast
qed

section \<open>Thermal throttling and the temperature floor\<close>

text \<open>
  C7. For every core whose throttle threshold is the constructor's 90.0 and for every
  temperature, \<open>get_current_speed\<close> returns the base speed when the temperature is
  strictly below 90.0 and exactly half the base speed when it is 90.0 or above.
\<close>

theorem C7_get_current_speed:
  assumes "max_temp c = 90"
  shows "(temperature c < 90 \<longrightarrow> get_current_speed c = base_speed c)
       \<and> (90 \<le> temperature c \<longrightarrow> get_current_speed c = base_speed c / 2)"
  using assms by (simp add: get_current_speed_def)

theorem C7_get_current_speed_witness:
  "max_temp (CPUCore_init 0 P_core) = 90
   \<and> temperature (CPUCore_init 0 P_core) < 90
   \<and> get_current_speed (CPUCore_init 0 P_core) = 2
   \<and> max_temp ((CPUCore_init 0 P_core)\<lparr>temperature := 90\<rparr>) = 90
   \<and> 90 \<le> temperature ((CPUCore_init 0 P_core)\<lparr>temperature := 90\<rparr>)
   \<and> get_current_speed ((CPUCore_init 0 P_core)\<lparr>temperature := 90\<rparr>) = 1"
  using C7_get_current_speed [of "CPUCore_init 0 P_core"]
        C7_get_current_speed [of "(CPUCore_init 0 P_core)\<lparr>temperature := 90\<rparr>"]
  by (simp add: CPUCore_init_def)

text \<open>
  C8. Every core of a constructed simulator starts at 25.0; \<open>update_temperature\<close> adds
  the heat-generation rate when a bound task that is not waiting for I/O is present and
  subtracts the cooling rate otherwise, and clamps the result at 25.0; and after any
  number of simulation ticks, which always succeed, every core's temperature is at
  least 25.0.
\<close>

theorem C8_temperature_floor:
  assumes "SoC_init p e k g0 = Inr (s0, g)"
  shows "(\<forall>c \<in> set (all_cores s0). temperature c = 25)
       \<and> (\<forall>c. temperature (update_temperature c) =
                max 25 (if is_active c then temperature c + heat_generation c
                        else temperature c - cooling_factor c))
       \<and> (\<forall>n. \<exists>s g'. run_ticks n s0 g = Inr (s, g')
                \<and> (\<forall>c \<in> set (all_cores s). 25 \<le> temperature c))"
proof -
  from SoC_init_cores [OF assms] have a: "\<forall>c \<in> set (all_cores s0). temperature c = 25"
    by (auto simp: CPUCore_init_def)
  have b: "\<forall>c. temperature (update_temperature c) =
                max 25 (if is_active c then temperature c + heat_generation c
                        else temperature c - cooling_factor c)"
    by (simp add: update_temperature_def Let_def)
  have c: "\<forall>n. \<exists>s g'. run_ticks n s0 g = Inr (s, g')
                \<and> (\<forall>c \<in> set (all_cores s). 25 \<le> temperature c)"
  proof
    fix n
    obtain s g' where r: "run_ticks n s0 g = Inr (s, g')"
      using run_ticks_total by blast
    from a have "\<forall>c \<in> set (all_cores s0). 25 \<le> temperature c" by simp
    from run_ticks_floor [OF r this] r
    show "\<exists>s g'. run_ticks n s0 g = Inr (s, g') \<and> (\<forall>c \<in> set (all_cores s). 25 \<le> temperature c)"
      by blast
  qed
  from a b c show ?thesis by blast
qed

text \<open>
  One performance core and the task \<open>io_task\<close>, on an exhausted script: the first
  work step triggers an I/O wait, the core cools from 25.8 and is held at 25.0.
\<close>

theorem C8_temperature_floor_witness:
  "SoC_init 1 0 1 [] = Inr (fresh_soc [CPUCore_init 0 P_core] [io_task], [])
   \<and> list_all (\<lambda>c. temperature c = 25) (all_cores (fresh_soc [CPUCore_init 0 P_core] [io_task]))
   \<and> map_sum id (\<lambda>(s, g). map temperature (all_cores s))
        (run_ticks 1 (fresh_soc [CPUCore_init 0 P_core] [io_task]) []) = Inr [129 / 5]
   \<and> map_sum id (\<lambda>(s, g). map temperature (all_cores s))
        (run_ticks 4 (fresh_soc [CPUCore_init 0 P_core] [io_task]) []) = Inr [25]
   \<and> (\<exists>s g'. run_ticks 4 (fresh_soc [CPUCore_init 0 P_core] [io_task]) [] = Inr (s, g')
        \<and> list_all (\<lambda>c. 25 \<le> temperature c) (all_cores s))"
proof -
  have h: "SoC_init 1 0 1 [] = Inr (fresh_soc [CPUCore_init 0 P_core] [io_task], [])"
    by code_simp
  have r1: "map_sum id (\<lambda>(s, g). map temperature (all_cores s))
        (run_ticks 1 (fresh_soc [CPUCore_init 0 P_core] [io_task]) []) = Inr [129 / 5]"
    by code_simp
  have r4: "map_sum id (\<lambda>(s, g). map temperature (all_cores s))
        (run_ticks 4 (fresh_soc [CPUCore_init 0 P_core] [io_task]) []) = Inr [25]"
    by code_simp
  from C8_temperature_floor [OF h]
  have "(\<forall>c \<in> set (all_cores (fresh_soc [CPUCore_init 0 P_core] [io_task])). temperature c = 25)
      \<and> (\<exists>s g'. run_ticks 4 (fresh_soc [CPUCore_init 0 P_core] [io_task]) [] = Inr (s, g')
           \<and> (\<forall>c \<in> set (all_cores s). 25 \<le> temperature c))"
    by blast
  with h r1 r4 show ?thesis by (simp add: list_all_iff)
qed

section \<open>Construction\<close>

text \<open>
  C9 as stated fails: the constructor does not validate its counts. With every count
  negative it returns a simulator with no cores and no tasks.
\<close>

theorem C9_counterexample:
  "SoC_init (- 1) (- 1) (- 1) [] =
     Inr (\<lparr>all_cores = [], master_task_list = [], task_queue = [], completed_tasks = [],
           current_tick = 0, total_power_consumed = 0\<rparr>, [])"
  by (simp add: SoC_init_def generate_tasks_def py_range_def)

text \<open>
  C9, amended. Constructing the simulator never raises, whatever the counts: a negative
  count is treated like zero, so the simulator has \<open>max 0 p + max 0 e\<close> cores and
  \<open>max 0 k\<close> not-yet-arrived tasks, empty queue and completed record, tick 0 and
  power 0.
\<close>

theorem C9_construction_never_fails:
  "\<exists>s g'. SoC_init p e k g = Inr (s, g')
     \<and> length (all_cores s) = nat p + nat e
     \<and> length (master_task_list s) = nat k
     \<and> task_queue s = [] \<and> completed_tasks s = []
     \<and> current_tick s = 0 \<and> total_power_consumed s = 0"
proof -
  obtain ts g' where "generate_tasks k g = Inr (ts, g')" "length ts = nat k"
    using generate_tasks_total by blast
  then show ?thesis by (simp add: SoC_init_def Let_def py_range_def)
qed

section \<open>Ticks without cores or without tasks\<close>














section \<open>Power accounting\<close>

lemma tick_loop_power:
  "tick_loop cs p g = Inr (cs', p', g') \<Longrightarrow>
   p' = p + sum_list (map get_current_power_draw cs')"
proof (induction cs arbitrary: p g cs' p' g')
  case Nil
  then show ?case by simp
next
  case (Cons c cs)
  from Cons.prems obtain c1 g1 cs1 where
    t: "tick c g = Inr (c1, g1)" and
    l: "tick_loop cs (p + get_current_power_draw c1) g1 = Inr (cs1, p', g')" and
    e: "cs' = c1 # cs1"
    by (auto split: sum.splits)
  from Cons.IH [OF l] e show ?case by simp
qed

lemma schedule_rule_based_power:
  "schedule_rule_based s = Inr s' \<Longrightarrow> total_power_consumed s' = total_power_consumed s"
  by (auto simp: schedule_rule_based_def split: if_splits sum.splits)

lemma check_for_new_arrivals_power:
  "total_power_consumed (check_for_new_arrivals s) = total_power_consumed s"
  by (simp add: check_for_new_arrivals_def split: prod.splits)

lemma run_simulation_tick_power:
  assumes "run_simulation_tick s g = Inr (s', g')"
  shows "total_power_consumed s'
         = total_power_consumed s + sum_list (map get_current_power_draw (all_cores s'))"
proof -
  from assms obtain s2 cs p where
    a: "schedule_rule_based (check_for_new_arrivals s) = Inr s2" and
    l: "tick_loop (all_cores s2) (total_power_consumed s2) g = Inr (cs, p, g')" and
    e: "s' = s2\<lparr>all_cores := cs, total_power_consumed := p, current_tick := current_tick s2 + 1\<rparr>"
    by (auto simp: run_simulation_tick_def Let_def split: sum.splits)
  from schedule_rule_based_power [OF a] have "total_power_consumed s2 = total_power_consumed s"
    by (simp add: check_for_new_arrivals_power)
  with tick_loop_power [OF l] e show ?thesis by simp
qed

lemma tick_finished:
  assumes "current_task c = Some t" and "is_finished t"
  shows "\<exists>c'. tick c g = Inr (c', g) \<and> current_task c' = None
           \<and> get_current_power_draw c' = idle_power_draw c"
  using assms
  by (simp add: tick_def Let_def update_temperature_fields get_current_power_draw_def
                is_active_def)

lemma tick_io_event:
  assumes c: "current_task c = Some t" and nf: "\<not> is_finished t"
    and nw: "\<not> is_waiting_for_io t"
    and t: "tick c g = Inr (c', g')" and c': "current_task c' = Some t'"
    and w: "is_waiting_for_io t'"
  shows "cycles_done t' = cycles_done t + get_current_speed (update_temperature c)
       \<and> get_current_power_draw c' = idle_power_draw c"
proof -
  from c nf nw t c' obtain g1 where
    wk: "work t (get_current_speed (update_temperature c)) g = Inr (t', g1)"
    and e: "c' = (update_temperature c)\<lparr>current_task := Some t'\<rparr>"
    by (auto simp: tick_def Let_def update_temperature_fields split: sum.splits)
  from wk nw have "cycles_done t' = cycles_done t + get_current_speed (update_temperature c)"
    by (auto simp: work_def Let_def split: if_splits sum.splits prod.splits)
  moreover from e w have "get_current_power_draw c' = idle_power_draw c"
    by (simp add: get_current_power_draw_def is_active_def update_temperature_fields)
  ultimately show ?thesis by simp
qed

text \<open>
  C10. A simulation tick adds to \<open>total_power_consumed\<close> the power draw of every core
  as it is after that core's own tick. So a core whose tick finds its task finished and
  clears the binding contributes its idle draw, and so does a core whose tick worked
  the task and thereby triggered an I/O wait, although it computed in that tick. The
  idle draw of a constructed core is 0.1.
\<close>

theorem C10_power_sampled_after_tick:
  "(run_simulation_tick s g = Inr (s', g') \<longrightarrow>
      total_power_consumed s'
      = total_power_consumed s + sum_list (map get_current_power_draw (all_cores s')))
   \<and> (current_task c = Some t \<and> is_finished t \<longrightarrow>
      (\<exists>c'. tick c g = Inr (c', g) \<and> current_task c' = None
         \<and> get_current_power_draw c' = idle_power_draw c))
   \<and> (current_task c = Some t \<and> \<not> is_finished t \<and> \<not> is_waiting_for_io t
        \<and> tick c g = Inr (c1, g1) \<and> current_task c1 = Some t1 \<and> is_waiting_for_io t1 \<longrightarrow>
      cycles_done t1 = cycles_done t + get_current_speed (update_temperature c)
      \<and> get_current_power_draw c1 = idle_power_draw c)
   \<and> idle_power_draw (CPUCore_init i ty) = 1 / 10"
  using run_simulation_tick_power [of s g s' g'] tick_finished [of c t g]
        tick_io_event [of c t g c1 g1 t1]
  by (simp add: CPUCore_init_def)

theorem C10_power_sampled_after_tick_witness:
  "run_simulation_tick (fresh_soc [CPUCore_init 0 P_core] [io_task]) []
     = Inr (\<lparr>all_cores =
               [(CPUCore_init 0 P_core)
                  \<lparr>current_task := Some (io_task\<lparr>cycles_done := 2, io_wait_timer := 5\<rparr>),
                   temperature := 129 / 5\<rparr>],
             master_task_list = [], task_queue = [], completed_tasks = [],
             current_tick = 1, total_power_consumed = 1 / 10\<rparr>, [])
   \<and> current_task ((CPUCore_init 0 E_core)\<lparr>current_task := Some (io_task\<lparr>cycles_done := 50\<rparr>)\<rparr>)
       = Some (io_task\<lparr>cycles_done := 50\<rparr>)
   \<and> is_finished (io_task\<lparr>cycles_done := 50\<rparr>)
   \<and> tick ((CPUCore_init 0 E_core)\<lparr>current_task := Some (io_task\<lparr>cycles_done := 50\<rparr>)\<rparr>) []
       = Inr ((CPUCore_init 0 E_core)\<lparr>temperature := 126 / 5\<rparr>, [])
   \<and> get_current_power_draw ((CPUCore_init 0 E_core)\<lparr>temperature := 126 / 5\<rparr>) = 1 / 10
   \<and> current_task ((CPUCore_init 0 P_core)\<lparr>current_task := Some io_task\<rparr>) = Some io_task
   \<and> \<not> is_finished io_task \<and> \<not> is_waiting_for_io io_task
   \<and> tick ((CPUCore_init 0 P_core)\<lparr>current_task := Some io_task\<rparr>) []
       = Inr ((CPUCore_init 0 P_core)
                \<lparr>current_task := Some (io_task\<lparr>cycles_done := 2, io_wait_timer := 5\<rparr>),
                 temperature := 129 / 5\<rparr>, [])
   \<and> is_waiting_for_io (io_task\<lparr>cycles_done := 2, io_wait_timer := 5\<rparr>)
   \<and> get_current_power_draw
        ((CPUCore_init 0 P_core)
           \<lparr>current_task := Some (io_task\<lparr>cycles_done := 2, io_wait_timer := 5\<rparr>),
            temperature := 129 / 5\<rparr>) = 1 / 10"
proof -
  let ?s = "fresh_soc [CPUCore_init 0 P_core] [io_task]"
  let ?t2 = "io_task\<lparr>cycles_done := 2, io_wait_timer := 5\<rparr>"
  let ?p2 = "(CPUCore_init 0 P_core)\<lparr>current_task := Some ?t2, temperature := 129 / 5\<rparr>"
  let ?s' = "\<lparr>all_cores = [?p2],
             master_task_list = [], task_queue = [], completed_tasks = [],
             current_tick = 1, total_power_consumed = 1 / 10\<rparr>"
  let ?e = "(CPUCore_init 0 E_core)\<lparr>current_task := Some (io_task\<lparr>cycles_done := 50\<rparr>)\<rparr>"
  let ?p = "(CPUCore_init 0 P_core)\<lparr>current_task := Some io_task\<rparr>"
  have a: "run_simulation_tick ?s [] = Inr (?s', [])"
    by code_simp
  have b: "current_task ?e = Some (io_task\<lparr>cycles_done := 50\<rparr>)"
    "is_finished (io_task\<lparr>cycles_done := 50\<rparr>)"
    by (simp_all add: is_finished_def io_task_def)
  have c: "tick ?e [] = Inr ((CPUCore_init 0 E_core)\<lparr>temperature := 126 / 5\<rparr>, [])"
    by code_simp
  have d: "current_task ?p = Some io_task" "\<not> is_finished io_task"
    "\<not> is_waiting_for_io io_task" "is_waiting_for_io ?t2"
    by (simp_all add: is_finished_def is_waiting_for_io_def io_task_def)
  have e: "tick ?p [] = Inr (?p2, [])"
    by code_simp
  have i: "idle_power_draw ?e = 1 / 10" "idle_power_draw ?p = 1 / 10"
    "current_task ?p2 = Some ?t2"
    by (simp_all add: CPUCore_init_def)
  note inst = C10_power_sampled_after_tick
    [of ?s "[]" ?s' "[]" ?e "io_task\<lparr>cycles_done := 50\<rparr>"]
  note inst2 = C10_power_sampled_after_tick
    [of ?s "[]" ?s' "[]" ?p io_task ?p2 "[]" ?t2]
  from inst b c i have f:
    "get_current_power_draw ((CPUCore_init 0 E_core)\<lparr>temperature := 126 / 5\<rparr>) = 1 / 10"
    by auto
  from inst2 d e i have g: "get_current_power_draw ?p2 = 1 / 10"
    by auto
  from a b c d e f g show ?thesis by blast
qed

end
